theory Spec2Isabelle
  imports Complex_Main "HOL-Library.Sublist"
begin

section \<open>Constants and reference data\<close>

definition WEEKS_IN_YEAR :: nat where
  "WEEKS_IN_YEAR = 52"

definition TOTAL_YEARS :: nat where
  "TOTAL_YEARS = 90"

definition TOTAL_WEEKS :: nat where
  "TOTAL_WEEKS = TOTAL_YEARS * WEEKS_IN_YEAR"

text \<open>
  An entry of the table \<^verbatim>\<open>US_PRESIDENTS\<close>: \<^verbatim>\<open>{ name, start, end }\<close>. The fields
  \<^verbatim>\<open>start\<close> and \<^verbatim>\<open>end\<close> are spelled \<open>start_year\<close> and \<open>end_year\<close> here (\<open>end\<close> is
  reserved, and \<^verbatim>\<open>start\<close> is also a local variable of the counter animation).
\<close>

record president =
  name :: string
  start_year :: int
  end_year :: int

definition US_PRESIDENTS :: "president list" where
  "US_PRESIDENTS =
    [\<lparr>name = ''Jimmy Carter'', start_year = 1977, end_year = 1981\<rparr>,
     \<lparr>name = ''Ronald Reagan'', start_year = 1981, end_year = 1989\<rparr>,
     \<lparr>name = ''George H. W. Bush'', start_year = 1989, end_year = 1993\<rparr>,
     \<lparr>name = ''Bill Clinton'', start_year = 1993, end_year = 2001\<rparr>,
     \<lparr>name = ''George W. Bush'', start_year = 2001, end_year = 2009\<rparr>,
     \<lparr>name = ''Barack Obama'', start_year = 2009, end_year = 2017\<rparr>,
     \<lparr>name = ''Donald Trump'', start_year = 2017, end_year = 2021\<rparr>,
     \<lparr>name = ''Joe Biden'', start_year = 2021, end_year = 2025\<rparr>]"

definition IPHONE_RELEASES :: "int list" where
  "IPHONE_RELEASES =
    [2007, 2008, 2009, 2010, 2011, 2012, 2013, 2014, 2015, 2016,
     2017, 2018, 2019, 2020, 2021, 2022, 2023, 2024]"

section \<open>The host's \<^verbatim>\<open>Date\<close>\<close>

text \<open>
  \<^verbatim>\<open>calculateLifeStats\<close> reads three things from the JavaScript host: the current time
  value (\<^verbatim>\<open>new Date()\<close>), the time value of a parsed string (\<^verbatim>\<open>new Date(s).getTime()\<close>,
  \<^verbatim>\<open>NaN\<close> for a string that is not a date) and the calendar year of a time value in local
  time (\<^verbatim>\<open>getFullYear\<close>). A time value is an integral number of milliseconds since the
  epoch, of magnitude at most 8.64e15, so it is an \<open>int\<close> here; \<open>None\<close> is \<^verbatim>\<open>NaN\<close>.
  The current time value is an explicit argument of the model.
\<close>

record host =
  Date_parse :: "string \<Rightarrow> int option"
  getFullYear :: "int \<Rightarrow> int"

section \<open>\<^verbatim>\<open>calculateLifeStats\<close>\<close>

text \<open>
  The values stored in the returned object literal: numbers (all of them integral:
  results of \<^verbatim>\<open>Math.floor\<close>, or sums, differences and products of integers), booleans,
  and the array of names. An object is its property list, in the order of the literal.
\<close>

datatype jsval = Num int | Bool bool | Names "string list"

type_synonym jsobject = "(string \<times> jsval) list"

definition presidentFilter :: "int \<Rightarrow> president \<Rightarrow> bool" where
  "presidentFilter birthYear p \<longleftrightarrow>
     start_year p \<ge> birthYear \<or> (start_year p < birthYear \<and> end_year p > birthYear)"

text \<open>
  JavaScript numbers are doubles. The integral ones are \<open>int\<close> here, and \<^verbatim>\<open>Math.floor\<close> is
  dropped where its argument is a product of integers. The formulas with a division or
  a fractional constant are evaluated over the reals, with \<^verbatim>\<open>29.53\<close> and \<^verbatim>\<open>29.78\<close> read as
  decimal fractions: the rounding of the double-precision operations is not modelled.
  The integers that occur for a clock and a birth date in the range of \<^verbatim>\<open>Date\<close> are below
  \<open>2 ^ 53\<close> as long as the clock is within some ten thousand years of the epoch, so they
  are exact as doubles.
\<close>

definition calculateLifeStats :: "host \<Rightarrow> int \<Rightarrow> string \<Rightarrow> jsobject option" where
  "calculateLifeStats h now birthDateStr =
    (if birthDateStr = [] then None
     else case Date_parse h birthDateStr of
       None \<Rightarrow> None
     | Some birthDate \<Rightarrow>
        (let msLived = now - birthDate in
         if msLived < 0 then Some [(''isFuture'', Bool True)]
         else
          (let daysLived = \<lfloor>real_of_int msLived / (1000 * 60 * 60 * 24)\<rfloor>;
               weeksLived = \<lfloor>real_of_int daysLived / 7\<rfloor>;
               birthYear = getFullYear h birthDate;
               yearsLived = getFullYear h now - birthYear;
               heartbeats = daysLived * 24 * 60 * 70;
               fullMoons = \<lfloor>real_of_int daysLived / 29.53\<rfloor>;
               earthRevolutions = yearsLived;
               kmTraveledAroundSun = \<lfloor>real_of_int (daysLived * 24 * 60 * 60) * 29.78\<rfloor>;
               presidentsInLifetime = map name (filter (presidentFilter birthYear) US_PRESIDENTS);
               mealsEaten = daysLived * 3;
               hoursSlept = yearsLived * 365 * 8;
               dreams = hoursSlept * 2;
               peopleMet = min 80000 \<lfloor>real_of_int yearsLived * (80000 / 80)\<rfloor>;
               iphoneModels = int (length (filter (\<lambda>year. year \<ge> birthYear) IPHONE_RELEASES))
           in Some
             [(''weeksLived'', Num weeksLived),
              (''heartbeats'', Num heartbeats),
              (''fullMoons'', Num fullMoons),
              (''earthRevolutions'', Num earthRevolutions),
              (''kmTraveledAroundSun'', Num kmTraveledAroundSun),
              (''presidentsInLifetime'', Names presidentsInLifetime),
              (''mealsEaten'', Num mealsEaten),
              (''hoursSlept'', Num hoursSlept),
              (''dreams'', Num dreams),
              (''peopleMet'', Num peopleMet),
              (''iphoneModels'', Num iphoneModels),
              (''isFuture'', Bool False)])))"

text \<open>
  Reading a property of the returned value; \<open>None\<close> when the value is \<^verbatim>\<open>null\<close> or has
  no such property.
\<close>

definition field :: "jsobject option \<Rightarrow> string \<Rightarrow> jsval option" where
  "field r k = (case r of None \<Rightarrow> None | Some obj \<Rightarrow> map_of obj k)"

text \<open>
  The reading of the specification for the list of presidents: an officeholder is listed
  when the term interval, from \<^verbatim>\<open>start\<close> to \<^verbatim>\<open>end\<close>, and the lifetime interval, from the
  birth year to the current year, have a year in common. This definition follows the
  words of the specification, not the source; it is compared with the source below.
\<close>

definition spec_term_overlaps :: "int \<Rightarrow> int \<Rightarrow> president \<Rightarrow> bool" where
  "spec_term_overlaps birthYear nowYear p \<longleftrightarrow> start_year p \<le> nowYear \<and> birthYear \<le> end_year p"

text \<open>The property names of the full record, in the order of the object literal.\<close>

definition full_record_keys :: "string list" where
  "full_record_keys =
    [''weeksLived'', ''heartbeats'', ''fullMoons'', ''earthRevolutions'',
     ''kmTraveledAroundSun'', ''presidentsInLifetime'', ''mealsEaten'', ''hoursSlept'',
     ''dreams'', ''peopleMet'', ''iphoneModels'', ''isFuture'']"

section \<open>\<^verbatim>\<open>AnimatedNumber\<close>\<close>

text \<open>
  The callback \<^verbatim>\<open>animate\<close> reschedules itself with \<^verbatim>\<open>requestAnimationFrame\<close> while
  \<^verbatim>\<open>progress < 1\<close>. The model runs it over the timestamps of the animation frames
  that the browser delivers from the first request on, and returns the arguments of the
  calls of \<^verbatim>\<open>setDisplayValue\<close>, in order. When the frames stop before the animation is
  complete the list ends there. Timestamps are reals.
\<close>

fun animate :: "int \<Rightarrow> int \<Rightarrow> real \<Rightarrow> real list \<Rightarrow> int list" where
  "animate start end_value startTime [] = []"
| "animate start end_value startTime (currentTime # later) =
    (let duration = 1500;
         elapsedTime = currentTime - startTime;
         progress = min (elapsedTime / duration) 1;
         currentVal = \<lfloor>progress * real_of_int (end_value - start) + real_of_int start\<rfloor>
     in if progress < 1 then currentVal # animate start end_value startTime later
        else [currentVal, end_value])"

text \<open>
  The body of the observer callback for an intersecting entry, at time \<open>startTime\<close>
  (\<^verbatim>\<open>performance.now()\<close>): the calls of \<^verbatim>\<open>setDisplayValue\<close> it leads to.
\<close>

definition onIntersecting :: "int \<Rightarrow> real \<Rightarrow> real list \<Rightarrow> int list" where
  "onIntersecting value startTime frames =
    (let start = 0; end_value = value
     in if start = end_value then [] else animate start end_value startTime frames)"

text \<open>
  The effect constructs an \<^verbatim>\<open>IntersectionObserver\<close> with no guard: where the host has no
  such global the constructor expression raises a \<^verbatim>\<open>ReferenceError\<close>. The component is run
  with the first intersecting observation, if there is one, and returns the successive
  values of the state \<^verbatim>\<open>displayValue\<close>, which starts at \<open>0\<close>.
\<close>

datatype js_error = ReferenceError

definition AnimatedNumber ::
    "bool \<Rightarrow> int \<Rightarrow> (real \<times> real list) option \<Rightarrow> js_error + int list" where
  "AnimatedNumber hasIntersectionObserver value seen =
    (if \<not> hasIntersectionObserver then Inl ReferenceError
     else Inr (0 # (case seen of
                      None \<Rightarrow> []
                    | Some (startTime, frames) \<Rightarrow> onIntersecting value startTime frames)))"

section \<open>\<^verbatim>\<open>LifeGrid\<close>\<close>

text \<open>
  One element of the grid: the two flags that select its CSS classes, and the key,
  title, visibility and transition delay (in milliseconds) of the \<^verbatim>\<open>div\<close>.
\<close>

record grid_unit =
  key :: nat
  isLived :: bool
  isDecadeMarker :: bool
  shown :: bool
  transitionDelay :: real
  title_week :: nat

definition grid_unit_at :: "int \<Rightarrow> bool \<Rightarrow> nat \<Rightarrow> grid_unit" where
  "grid_unit_at weeksLived isRendered i =
    (let lived = int i < weeksLived;
         year = i div WEEKS_IN_YEAR;
         decadeMarker = ((year + 1) mod 10 = 0 \<and> i mod WEEKS_IN_YEAR = WEEKS_IN_YEAR - 1)
     in \<lparr>key = i, isLived = lived, isDecadeMarker = decadeMarker, shown = isRendered,
         transitionDelay = real i * 0.2, title_week = i + 1\<rparr>)"

definition LifeGrid :: "int \<Rightarrow> bool \<Rightarrow> grid_unit list" where
  "LifeGrid weeksLived isRendered = map (grid_unit_at weeksLived isRendered) [0..<TOTAL_WEEKS]"

section \<open>\<^verbatim>\<open>StatCard\<close>\<close>

text \<open>
  The card is revealed by the state \<^verbatim>\<open>isRendered\<close>. Its effect constructs the observer
  (a \<^verbatim>\<open>ReferenceError\<close> where the host has none) and observes the card; the observer
  callback starts a timer for an intersecting entry; the timer sets \<^verbatim>\<open>isRendered\<close> and
  disconnects the observer. The events are the calls the host makes: the observer
  callback with \<^verbatim>\<open>entry.isIntersecting\<close>, and the expiry of a pending timer.
\<close>

record StatCard_state =
  isRendered :: bool
  observing :: bool
  pendingTimers :: nat

datatype StatCard_event = Observed bool | TimerFired

definition StatCard_effect :: "bool \<Rightarrow> js_error + StatCard_state" where
  "StatCard_effect hasIntersectionObserver =
    (if \<not> hasIntersectionObserver then Inl ReferenceError
     else Inr \<lparr>isRendered = False, observing = True, pendingTimers = 0\<rparr>)"

fun StatCard_step :: "StatCard_state \<Rightarrow> StatCard_event \<Rightarrow> StatCard_state" where
  "StatCard_step s (Observed isIntersecting) =
    (if observing s \<and> isIntersecting then s\<lparr>pendingTimers := pendingTimers s + 1\<rparr> else s)"
| "StatCard_step s TimerFired =
    (if 0 < pendingTimers s
     then s\<lparr>isRendered := True, observing := False, pendingTimers := pendingTimers s - 1\<rparr>
     else s)"

definition StatCard :: "bool \<Rightarrow> StatCard_event list \<Rightarrow> js_error + StatCard_state" where
  "StatCard hasIntersectionObserver events =
    (case StatCard_effect hasIntersectionObserver of
       Inl e \<Rightarrow> Inl e
     | Inr s \<Rightarrow> Inr (foldl StatCard_step s events))"

text \<open>Whether a run of the card ends with the card revealed.\<close>

definition revealed :: "js_error + StatCard_state \<Rightarrow> bool" where
  "revealed r = (case r of Inl e \<Rightarrow> False | Inr s \<Rightarrow> isRendered s)"

section \<open>A concrete host: the ECMAScript calendar in UTC\<close>

text \<open>
  The calendar functions of the ECMAScript specification (\<^verbatim>\<open>Day\<close>, \<^verbatim>\<open>DayFromYear\<close>,
  \<^verbatim>\<open>YearFromTime\<close>), for a host whose local time zone is UTC, and the date-only form
  \<^verbatim>\<open>YYYY-MM-DD\<close> of the date-time string format, which is read as UTC midnight.
  The specification defines \<^verbatim>\<open>YearFromTime(t)\<close> as the largest \<open>y\<close> whose first day is
  not after \<open>t\<close>; here it is found among three candidates around an estimate.
\<close>

definition msPerDay :: int where
  "msPerDay = 86400000"

definition Day :: "int \<Rightarrow> int" where
  "Day t = t div msPerDay"

definition DayFromYear :: "int \<Rightarrow> int" where
  "DayFromYear y =
     365 * (y - 1970) + (y - 1969) div 4 - (y - 1901) div 100 + (y - 1601) div 400"

definition YearFromTime :: "int \<Rightarrow> int" where
  "YearFromTime t =
    (let d = Day t; y = 1970 + (d * 400) div 146097
     in if DayFromYear (y + 1) \<le> d then y + 1
        else if DayFromYear y \<le> d then y
        else y - 1)"

definition InLeapYear :: "int \<Rightarrow> bool" where
  "InLeapYear y \<longleftrightarrow> y mod 4 = 0 \<and> (y mod 100 \<noteq> 0 \<or> y mod 400 = 0)"

definition DaysInMonth :: "int \<Rightarrow> nat \<Rightarrow> int" where
  "DaysInMonth y m =
    (if m = 2 then (if InLeapYear y then 29 else 28)
     else if m \<in> {4, 6, 9, 11} then 30 else 31)"

definition DaysBeforeMonth :: "int \<Rightarrow> nat \<Rightarrow> int" where
  "DaysBeforeMonth y m = (\<Sum>k \<leftarrow> [1..<m]. DaysInMonth y k)"

definition digit :: "char \<Rightarrow> nat option" where
  "digit c =
    (let n = (of_char c :: nat) in if 48 \<le> n \<and> n \<le> 57 then Some (n - 48) else None)"

fun digits :: "nat \<Rightarrow> string \<Rightarrow> nat option" where
  "digits acc [] = Some acc"
| "digits acc (c # cs) =
    (case digit c of None \<Rightarrow> None | Some n \<Rightarrow> digits (10 * acc + n) cs)"

definition iso_date_parse :: "string \<Rightarrow> int option" where
  "iso_date_parse s =
    (if length s = 10 \<and> s ! 4 = CHR ''-'' \<and> s ! 7 = CHR ''-'' then
       (case (digits 0 (take 4 s), digits 0 (take 2 (drop 5 s)), digits 0 (drop 8 s)) of
          (Some y, Some m, Some d) \<Rightarrow>
            if 1 \<le> m \<and> m \<le> 12 \<and> 1 \<le> d \<and> int d \<le> DaysInMonth (int y) m
            then Some (msPerDay * (DayFromYear (int y) + DaysBeforeMonth (int y) m + (int d - 1)))
            else None
        | _ \<Rightarrow> None)
     else None)"

definition utc_host :: host where
  "utc_host = \<lparr>Date_parse = iso_date_parse, getFullYear = YearFromTime\<rparr>"

section \<open>The calendar of the concrete host\<close>








section \<open>The three outcomes of \<^verbatim>\<open>calculateLifeStats\<close>\<close>

lemma calculateLifeStats_null:
  "birthDateStr = [] \<or> Date_parse h birthDateStr = None \<Longrightarrow>
   calculateLifeStats h now birthDateStr = None"
  by (auto simp: calculateLifeStats_def)

lemma calculateLifeStats_future:
  "birthDateStr \<noteq> [] \<Longrightarrow> Date_parse h birthDateStr = Some birthDate \<Longrightarrow> now < birthDate \<Longrightarrow>
   calculateLifeStats h now birthDateStr = Some [(''isFuture'', Bool True)]"
  by (simp add: calculateLifeStats_def)

lemma calculateLifeStats_past:
  assumes "birthDateStr \<noteq> []" and "Date_parse h birthDateStr = Some birthDate"
    and "birthDate \<le> now"
  shows "calculateLifeStats h now birthDateStr = Some
    [(''weeksLived'', Num ((now - birthDate) div 86400000 div 7)),
     (''heartbeats'', Num ((now - birthDate) div 86400000 * 24 * 60 * 70)),
     (''fullMoons'', Num \<lfloor>real_of_int ((now - birthDate) div 86400000) / 29.53\<rfloor>),
     (''earthRevolutions'', Num (getFullYear h now - getFullYear h birthDate)),
     (''kmTraveledAroundSun'',
        Num \<lfloor>real_of_int ((now - birthDate) div 86400000 * 24 * 60 * 60) * 29.78\<rfloor>),
     (''presidentsInLifetime'',
        Names (map name (filter (presidentFilter (getFullYear h birthDate)) US_PRESIDENTS))),
     (''mealsEaten'', Num ((now - birthDate) div 86400000 * 3)),
     (''hoursSlept'', Num ((getFullYear h now - getFullYear h birthDate) * 365 * 8)),
     (''dreams'', Num ((getFullYear h now - getFullYear h birthDate) * 365 * 8 * 2)),
     (''peopleMet'', Num (min 80000 ((getFullYear h now - getFullYear h birthDate) * 1000))),
     (''iphoneModels'',
        Num (int (length (filter (\<lambda>year. year \<ge> getFullYear h birthDate) IPHONE_RELEASES)))),
     (''isFuture'', Bool False)]"
proof -
  have d: "\<lfloor>(real_of_int now - real_of_int birthDate) / 86400000\<rfloor> = (now - birthDate) div 86400000"
    using floor_divide_of_int_eq[of "now - birthDate" 86400000, where ?'a = real] by simp
  have w: "\<lfloor>real_of_int k / 7\<rfloor> = k div 7" for k :: int
    using floor_divide_of_int_eq[of k 7, where ?'a = real] by simp
  have p: "\<lfloor>real_of_int k * (80000 / 80)\<rfloor> = k * 1000" for k :: int
  proof -
    have "real_of_int k * (80000 / 80) = real_of_int (k * 1000)" by simp
    then show ?thesis by (simp only: floor_of_int)
  qed
  show ?thesis
    using assms unfolding calculateLifeStats_def Let_def w p by (simp add: d)
qed

section \<open>Concrete runs on the UTC host\<close>

text \<open>
  The inputs used by the witnesses below: the clock reads 2026-11-02T00:00Z
  (time value 1793577600000) and the birth date is 2000-01-01 or 2030-01-01.
\<close>

lemma parse_2000: "Date_parse utc_host ''2000-01-01'' = Some 946684800000"
  by (simp add: utc_host_def iso_date_parse_def digit_def DaysInMonth_def DaysBeforeMonth_def
      DayFromYear_def msPerDay_def)

lemma parse_2030: "Date_parse utc_host ''2030-01-01'' = Some 1893456000000"
  by (simp add: utc_host_def iso_date_parse_def digit_def DaysInMonth_def DaysBeforeMonth_def
      DayFromYear_def msPerDay_def)

lemma parse_hello: "Date_parse utc_host ''hello'' = None"
  by (simp add: utc_host_def iso_date_parse_def)

lemma year_of_2000: "getFullYear utc_host 946684800000 = 2000"
  by (simp add: utc_host_def YearFromTime_def Day_def DayFromYear_def msPerDay_def)

lemma year_of_2026: "getFullYear utc_host 1793577600000 = 2026"
  by (simp add: utc_host_def YearFromTime_def Day_def DayFromYear_def msPerDay_def)

section \<open>Weeks lived\<close>

text \<open>
  Claim C1. For a birth-date string that parses to an instant strictly before the
  current one, the returned record has \<^verbatim>\<open>weeksLived\<close> equal to the floor of
  \<open>daysLived / 7\<close>, where \<open>daysLived\<close> is the floor of the elapsed milliseconds divided
  by the milliseconds of a day, and \<^verbatim>\<open>weeksLived\<close> is not negative.
\<close>

theorem weeksLived_floor:
  assumes "birthDateStr \<noteq> []" and "Date_parse h birthDateStr = Some birthDate"
    and "birthDate < now"
  shows "field (calculateLifeStats h now birthDateStr) ''weeksLived'' =
           Some (Num \<lfloor>real_of_int \<lfloor>real_of_int (now - birthDate) / 86400000\<rfloor> / 7\<rfloor>)
         \<and> 0 \<le> \<lfloor>real_of_int \<lfloor>real_of_int (now - birthDate) / 86400000\<rfloor> / 7\<rfloor>"
proof -
  have d: "\<lfloor>real_of_int (now - birthDate) / 86400000\<rfloor> = (now - birthDate) div 86400000"
    using floor_divide_of_int_eq[of "now - birthDate" 86400000, where ?'a = real] by simp
  have w: "\<lfloor>real_of_int k / 7\<rfloor> = k div 7" for k :: int
    using floor_divide_of_int_eq[of k 7, where ?'a = real] by simp
  have "0 \<le> (now - birthDate) div 86400000"
    using assms(3) by (simp add: pos_imp_zdiv_nonneg_iff)
  then have "0 \<le> (now - birthDate) div 86400000 div 7"
    by (simp add: pos_imp_zdiv_nonneg_iff)
  moreover have "field (calculateLifeStats h now birthDateStr) ''weeksLived'' =
      Some (Num ((now - birthDate) div 86400000 div 7))"
    using assms by (simp add: calculateLifeStats_past field_def)
  ultimately show ?thesis unfolding d w by simp
qed

theorem weeksLived_floor_witness:
  "''2000-01-01'' \<noteq> [] \<and> Date_parse utc_host ''2000-01-01'' = Some 946684800000
   \<and> (946684800000 :: int) < 1793577600000
   \<and> field (calculateLifeStats utc_host 1793577600000 ''2000-01-01'') ''weeksLived'' =
       Some (Num 1400)"
  using weeksLived_floor[of "''2000-01-01''" utc_host 946684800000 1793577600000]
  by (simp add: parse_2000)

section \<open>Future dates and unparseable input\<close>

text \<open>
  Claim C3. For a birth-date string that parses to an instant strictly after the
  current one, the result is a record whose only property is \<^verbatim>\<open>isFuture\<close>, with value
  true; for an instant at or before the current one it is the full record, with all
  twelve properties and \<^verbatim>\<open>isFuture\<close> false.
\<close>

theorem isFuture_only_or_full_record:
  assumes "birthDateStr \<noteq> []" and "Date_parse h birthDateStr = Some birthDate"
  shows "(now < birthDate \<longrightarrow>
            calculateLifeStats h now birthDateStr = Some [(''isFuture'', Bool True)])
       \<and> (birthDate \<le> now \<longrightarrow>
            (\<exists>obj. calculateLifeStats h now birthDateStr = Some obj
               \<and> map fst obj = full_record_keys
               \<and> map_of obj ''isFuture'' = Some (Bool False)))"
proof (intro conjI impI)
  assume "now < birthDate"
  with assms show "calculateLifeStats h now birthDateStr = Some [(''isFuture'', Bool True)]"
    by (rule calculateLifeStats_future)
next
  assume "birthDate \<le> now"
  with assms show "\<exists>obj. calculateLifeStats h now birthDateStr = Some obj
      \<and> map fst obj = full_record_keys \<and> map_of obj ''isFuture'' = Some (Bool False)"
    by (simp add: calculateLifeStats_past full_record_keys_def)
qed

theorem isFuture_only_or_full_record_witness:
  "calculateLifeStats utc_host 1793577600000 ''2030-01-01'' = Some [(''isFuture'', Bool True)]
   \<and> map fst (the (calculateLifeStats utc_host 1793577600000 ''2000-01-01'')) = full_record_keys
   \<and> field (calculateLifeStats utc_host 1793577600000 ''2000-01-01'') ''isFuture'' =
       Some (Bool False)
   \<and> field (calculateLifeStats utc_host 946684800000 ''2000-01-01'') ''isFuture'' =
       Some (Bool False)"
  using isFuture_only_or_full_record[of "''2030-01-01''" utc_host 1893456000000 1793577600000]
    isFuture_only_or_full_record[of "''2000-01-01''" utc_host 946684800000 1793577600000]
    isFuture_only_or_full_record[of "''2000-01-01''" utc_host 946684800000 946684800000]
  by (auto simp: parse_2000 parse_2030 field_def)

text \<open>
  Claim C4. \<^verbatim>\<open>calculateLifeStats\<close> has no throwing path for a string argument: the
  model is a total function whose value is \<^verbatim>\<open>null\<close> (\<open>None\<close>) or an object. It is
  \<^verbatim>\<open>null\<close> for the empty string and for a string that does not parse; for every other
  string it is a record, either the one with the single property \<^verbatim>\<open>isFuture\<close> = true or
  the full record with \<^verbatim>\<open>isFuture\<close> = false.
\<close>

theorem null_or_record:
  "(birthDateStr = [] \<or> Date_parse h birthDateStr = None \<longrightarrow>
      calculateLifeStats h now birthDateStr = None)
   \<and> (birthDateStr \<noteq> [] \<and> Date_parse h birthDateStr \<noteq> None \<longrightarrow>
      (\<exists>obj. calculateLifeStats h now birthDateStr = Some obj
         \<and> (obj = [(''isFuture'', Bool True)]
            \<or> map fst obj = full_record_keys \<and> map_of obj ''isFuture'' = Some (Bool False))))"
proof (intro conjI impI)
  assume "birthDateStr = [] \<or> Date_parse h birthDateStr = None"
  then show "calculateLifeStats h now birthDateStr = None"
    by (rule calculateLifeStats_null)
next
  assume a: "birthDateStr \<noteq> [] \<and> Date_parse h birthDateStr \<noteq> None"
  then obtain birthDate where b: "Date_parse h birthDateStr = Some birthDate" by auto
  show "\<exists>obj. calculateLifeStats h now birthDateStr = Some obj
         \<and> (obj = [(''isFuture'', Bool True)]
            \<or> map fst obj = full_record_keys \<and> map_of obj ''isFuture'' = Some (Bool False))"
  proof (cases "now < birthDate")
    case True
    with a b show ?thesis by (simp add: calculateLifeStats_future)
  next
    case False
    with a b show ?thesis by (simp add: calculateLifeStats_past full_record_keys_def)
  qed
qed

theorem null_or_record_witness:
  "calculateLifeStats utc_host 1793577600000 [] = None
   \<and> calculateLifeStats utc_host 1793577600000 ''hello'' = None
   \<and> calculateLifeStats utc_host 1793577600000 ''2030-01-01'' = Some [(''isFuture'', Bool True)]
   \<and> field (calculateLifeStats utc_host 1793577600000 ''2000-01-01'') ''isFuture'' =
       Some (Bool False)"
  using null_or_record[of "[]" utc_host 1793577600000]
    null_or_record[of "''hello''" utc_host 1793577600000]
    null_or_record[of "''2030-01-01''" utc_host 1793577600000]
    null_or_record[of "''2000-01-01''" utc_host 1793577600000]
  by (simp add: parse_hello parse_2000 parse_2030 field_def calculateLifeStats_past
      calculateLifeStats_future)

section \<open>People met\<close>

text \<open>
  Claim C8. In the full record \<^verbatim>\<open>peopleMet\<close> is the minimum of 80000 and the floor of
  \<open>yearsLived * 80000 / 80\<close>, where \<open>yearsLived\<close> is the difference of the calendar years
  of the current instant and of the birth date; it never exceeds 80000; and of two
  records the one with the larger \<open>yearsLived\<close> has the larger or equal \<^verbatim>\<open>peopleMet\<close>.
\<close>

theorem peopleMet_capped_monotone:
  assumes "birthDateStr \<noteq> []" and "Date_parse h birthDateStr = Some birthDate"
    and "birthDate \<le> now"
    and "birthDateStr' \<noteq> []" and "Date_parse h' birthDateStr' = Some birthDate'"
    and "birthDate' \<le> now'"
  shows "\<exists>p p'.
      field (calculateLifeStats h now birthDateStr) ''peopleMet'' = Some (Num p)
    \<and> field (calculateLifeStats h' now' birthDateStr') ''peopleMet'' = Some (Num p')
    \<and> p = min 80000
          \<lfloor>real_of_int (getFullYear h now - getFullYear h birthDate) * 80000 / 80\<rfloor>
    \<and> p \<le> 80000
    \<and> (getFullYear h now - getFullYear h birthDate
          \<le> getFullYear h' now' - getFullYear h' birthDate' \<longrightarrow> p \<le> p')"
proof -
  have f: "\<lfloor>real_of_int k * 80000 / 80\<rfloor> = k * 1000" for k :: int
  proof -
    have "real_of_int k * 80000 / 80 = real_of_int (k * 1000)" by simp
    then show ?thesis by (simp only: floor_of_int)
  qed
  have m: "y \<le> y' \<Longrightarrow> min 80000 (y * 1000) \<le> min 80000 (y' * 1000)" for y y' :: int
    by simp
  have "field (calculateLifeStats h now birthDateStr) ''peopleMet'' =
      Some (Num (min 80000 ((getFullYear h now - getFullYear h birthDate) * 1000)))"
    using assms(1-3) by (simp add: calculateLifeStats_past field_def)
  moreover have "field (calculateLifeStats h' now' birthDateStr') ''peopleMet'' =
      Some (Num (min 80000 ((getFullYear h' now' - getFullYear h' birthDate') * 1000)))"
    using assms(4-6) by (simp add: calculateLifeStats_past field_def)
  moreover have "min 80000 ((getFullYear h now - getFullYear h birthDate) * 1000) \<le> 80000"
    by simp
  moreover have "getFullYear h now - getFullYear h birthDate
          \<le> getFullYear h' now' - getFullYear h' birthDate' \<longrightarrow>
       min 80000 ((getFullYear h now - getFullYear h birthDate) * 1000)
          \<le> min 80000 ((getFullYear h' now' - getFullYear h' birthDate') * 1000)"
    using m by (intro impI)
  ultimately show ?thesis
    unfolding f by (intro exI conjI) (assumption | rule refl)+
qed

theorem peopleMet_capped_monotone_witness:
  "field (calculateLifeStats utc_host 1793577600000 ''2000-01-01'') ''peopleMet'' =
      Some (Num 26000)
   \<and> field (calculateLifeStats utc_host 946684800000 ''2000-01-01'') ''peopleMet'' =
      Some (Num 0)
   \<and> getFullYear utc_host 946684800000 - getFullYear utc_host 946684800000
      \<le> getFullYear utc_host 1793577600000 - getFullYear utc_host 946684800000
   \<and> (0 :: int) \<le> 26000"
  using peopleMet_capped_monotone[of "''2000-01-01''" utc_host 946684800000 946684800000
      "''2000-01-01''" utc_host 946684800000 1793577600000]
  by (simp add: parse_2000 year_of_2000 year_of_2026 calculateLifeStats_past field_def)

section \<open>Signs of the derived counts\<close>



section \<open>Presidents in the lifetime\<close>

lemma presidentFilter_table:
  "p \<in> set US_PRESIDENTS \<Longrightarrow> presidentFilter birthYear p \<longleftrightarrow> birthYear < end_year p"
  by (auto simp: US_PRESIDENTS_def presidentFilter_def)

lemma filter_sorted_dropWhile:
  "sorted (map f xs) \<Longrightarrow> filter (\<lambda>p. c < f p) xs = dropWhile (\<lambda>p. \<not> c < f p) xs"
  for f :: "'a \<Rightarrow> int"
proof (induction xs)
  case Nil
  then show ?case by simp
next
  case (Cons x xs)
  show ?case
  proof (cases "c < f x")
    case True
    with Cons.prems have "\<forall>p \<in> set xs. c < f p" by auto
    then have "filter (\<lambda>p. c < f p) xs = xs" by (simp add: filter_id_conv)
    with True show ?thesis by simp
  next
    case False
    with Cons show ?thesis by simp
  qed
qed

lemma end_year_sorted: "sorted (map end_year US_PRESIDENTS)"
  by (simp add: US_PRESIDENTS_def)

lemma filter_presidents_dropWhile:
  "filter (presidentFilter birthYear) US_PRESIDENTS
     = dropWhile (\<lambda>p. \<not> birthYear < end_year p) US_PRESIDENTS"
proof -
  have "filter (presidentFilter birthYear) US_PRESIDENTS
      = filter (\<lambda>p. birthYear < end_year p) US_PRESIDENTS"
    by (rule filter_cong) (simp_all add: presidentFilter_table)
  then show ?thesis
    by (simp add: filter_sorted_dropWhile[OF end_year_sorted])
qed

lemma parse_1990: "Date_parse utc_host ''1990-01-01'' = Some 631152000000"
  by (simp add: utc_host_def iso_date_parse_def digit_def DaysInMonth_def DaysBeforeMonth_def
      DayFromYear_def msPerDay_def)

lemma year_of_1990: "getFullYear utc_host 631152000000 = 1990"
  by (simp add: utc_host_def YearFromTime_def Day_def DayFromYear_def msPerDay_def)

lemma year_of_mid_2000: "getFullYear utc_host 959817600000 = 2000"
  by (simp add: utc_host_def YearFromTime_def Day_def DayFromYear_def msPerDay_def)

lemma parse_1981: "Date_parse utc_host ''1981-01-15'' = Some 348364800000"
  by (simp add: utc_host_def iso_date_parse_def digit_def DaysInMonth_def DaysBeforeMonth_def
      DayFromYear_def msPerDay_def)

lemma year_of_1981: "getFullYear utc_host 348364800000 = 1981"
  by (simp add: utc_host_def YearFromTime_def Day_def DayFromYear_def msPerDay_def)

text \<open>
  Claim C2, as stated, fails in both directions. The filter reads the birth year only,
  never the current instant: with the clock at 2000-06-01 and the birth date 1990-01-01
  the list contains Joe Biden, whose term (2021 to 2025) has no year in common with the
  interval from 1990 to 2000. And the filter keeps an earlier term only when it ends
  strictly after the birth year: with the clock at 2026-11-02 and the birth date
  1981-01-15 the list omits Jimmy Carter, whose term (1977 to 1981) has the year 1981 in
  common with the interval from 1981 to 2026.
\<close>

theorem presidents_overlap_counterexample:
  "Date_parse utc_host ''1990-01-01'' = Some 631152000000
   \<and> (631152000000 :: int) < 959817600000
   \<and> getFullYear utc_host 631152000000 = 1990
   \<and> getFullYear utc_host 959817600000 = 2000
   \<and> field (calculateLifeStats utc_host 959817600000 ''1990-01-01'') ''presidentsInLifetime'' =
       Some (Names [''George H. W. Bush'', ''Bill Clinton'', ''George W. Bush'',
         ''Barack Obama'', ''Donald Trump'', ''Joe Biden''])
   \<and> US_PRESIDENTS ! 7 = \<lparr>name = ''Joe Biden'', start_year = 2021, end_year = 2025\<rparr>
   \<and> name (US_PRESIDENTS ! 7) \<in> set [''George H. W. Bush'', ''Bill Clinton'',
         ''George W. Bush'', ''Barack Obama'', ''Donald Trump'', ''Joe Biden'']
   \<and> \<not> spec_term_overlaps 1990 2000 (US_PRESIDENTS ! 7)
   \<and> Date_parse utc_host ''1981-01-15'' = Some 348364800000
   \<and> (348364800000 :: int) < 1793577600000
   \<and> getFullYear utc_host 348364800000 = 1981
   \<and> getFullYear utc_host 1793577600000 = 2026
   \<and> field (calculateLifeStats utc_host 1793577600000 ''1981-01-15'') ''presidentsInLifetime'' =
       Some (Names [''Ronald Reagan'', ''George H. W. Bush'', ''Bill Clinton'',
         ''George W. Bush'', ''Barack Obama'', ''Donald Trump'', ''Joe Biden''])
   \<and> US_PRESIDENTS ! 0 = \<lparr>name = ''Jimmy Carter'', start_year = 1977, end_year = 1981\<rparr>
   \<and> name (US_PRESIDENTS ! 0) \<notin> set [''Ronald Reagan'', ''George H. W. Bush'',
         ''Bill Clinton'', ''George W. Bush'', ''Barack Obama'', ''Donald Trump'', ''Joe Biden'']
   \<and> spec_term_overlaps 1981 2026 (US_PRESIDENTS ! 0)"
proof -
  have p: "(631152000000 :: int) \<le> 959817600000" by simp
  have e: "''1990-01-01'' \<noteq> []" by simp
  have "field (calculateLifeStats utc_host 959817600000 ''1990-01-01'') ''presidentsInLifetime'' =
       Some (Names [''George H. W. Bush'', ''Bill Clinton'', ''George W. Bush'',
         ''Barack Obama'', ''Donald Trump'', ''Joe Biden''])"
    unfolding calculateLifeStats_past[OF e parse_1990 p] field_def year_of_1990
    by (simp add: US_PRESIDENTS_def presidentFilter_def)
  moreover have "US_PRESIDENTS ! 7 = \<lparr>name = ''Joe Biden'', start_year = 2021, end_year = 2025\<rparr>"
    by (simp add: US_PRESIDENTS_def)
  moreover have "US_PRESIDENTS ! 0 = \<lparr>name = ''Jimmy Carter'', start_year = 1977, end_year = 1981\<rparr>"
    by (simp add: US_PRESIDENTS_def)
  moreover have "field (calculateLifeStats utc_host 1793577600000 ''1981-01-15'')
      ''presidentsInLifetime'' =
       Some (Names [''Ronald Reagan'', ''George H. W. Bush'', ''Bill Clinton'',
         ''George W. Bush'', ''Barack Obama'', ''Donald Trump'', ''Joe Biden''])"
  proof -
    have p': "(348364800000 :: int) \<le> 1793577600000" by simp
    have e': "''1981-01-15'' \<noteq> []" by simp
    show ?thesis
      unfolding calculateLifeStats_past[OF e' parse_1981 p'] field_def year_of_1981
      by (simp add: US_PRESIDENTS_def presidentFilter_def)
  qed
  ultimately show ?thesis
    by (simp add: parse_1990 year_of_1990 year_of_mid_2000 spec_term_overlaps_def
        parse_1981 year_of_1981 year_of_2026)
qed

text \<open>
  Claim C2, amended. For a birth date that parses and is not after the current instant,
  \<^verbatim>\<open>presidentsInLifetime\<close> is the list of names of the table entries with
  \<open>start \<ge> birthYear \<or> (start < birthYear \<and> end > birthYear)\<close>, in table order: a
  subsequence of the names of the table, holding the name of an entry exactly when the
  entry satisfies the condition. These are the entries whose term ends strictly after
  the birth year. The current instant is not consulted; when the current year is 2021 or
  later the list is also the list of entries whose term starts no later than the current
  year and ends strictly after the birth year.
\<close>

theorem presidents_filter_exact:
  assumes "birthDateStr \<noteq> []" and "Date_parse h birthDateStr = Some birthDate"
    and "birthDate \<le> now"
  shows "\<exists>ns. field (calculateLifeStats h now birthDateStr) ''presidentsInLifetime'' =
            Some (Names ns)
       \<and> ns = map name (filter (\<lambda>p. start_year p \<ge> getFullYear h birthDate
                  \<or> (start_year p < getFullYear h birthDate
                       \<and> end_year p > getFullYear h birthDate)) US_PRESIDENTS)
       \<and> ns = map name (filter (\<lambda>p. end_year p > getFullYear h birthDate) US_PRESIDENTS)
       \<and> subseq ns (map name US_PRESIDENTS)
       \<and> (\<forall>p \<in> set US_PRESIDENTS. name p \<in> set ns \<longleftrightarrow>
             start_year p \<ge> getFullYear h birthDate
               \<or> (start_year p < getFullYear h birthDate \<and> end_year p > getFullYear h birthDate))
       \<and> (2021 \<le> getFullYear h now \<longrightarrow>
             ns = map name (filter (\<lambda>p. start_year p \<le> getFullYear h now
                    \<and> getFullYear h birthDate < end_year p) US_PRESIDENTS))"
proof -
  define y where "y = getFullYear h birthDate"
  define ns where "ns = map name (filter (presidentFilter y) US_PRESIDENTS)"
  have r: "field (calculateLifeStats h now birthDateStr) ''presidentsInLifetime'' = Some (Names ns)"
    using assms by (simp add: calculateLifeStats_past field_def ns_def y_def)
  have a: "ns = map name (filter (\<lambda>p. start_year p \<ge> y
                  \<or> (start_year p < y \<and> end_year p > y)) US_PRESIDENTS)"
    unfolding ns_def presidentFilter_def by simp
  have b: "ns = map name (filter (\<lambda>p. end_year p > y) US_PRESIDENTS)"
    unfolding ns_def by (rule arg_cong[where f = "map name"], rule filter_cong)
      (simp_all add: presidentFilter_table)
  have c: "subseq ns (map name US_PRESIDENTS)"
    unfolding ns_def by (intro subseq_map subseq_filter_left)
  have inj: "inj_on name (set US_PRESIDENTS)"
    by (simp add: US_PRESIDENTS_def)
  have d: "\<forall>p \<in> set US_PRESIDENTS. name p \<in> set ns \<longleftrightarrow>
             start_year p \<ge> y \<or> (start_year p < y \<and> end_year p > y)"
  proof
    fix p assume p: "p \<in> set US_PRESIDENTS"
    have "name p \<in> set ns \<longleftrightarrow> (\<exists>q \<in> set US_PRESIDENTS. presidentFilter y q \<and> name q = name p)"
      unfolding ns_def by (auto simp: image_iff)
    also have "\<dots> \<longleftrightarrow> presidentFilter y p"
      using p inj by (auto dest: inj_onD)
    finally show "name p \<in> set ns \<longleftrightarrow>
             start_year p \<ge> y \<or> (start_year p < y \<and> end_year p > y)"
      by (simp add: presidentFilter_def)
  qed
  have e: "2021 \<le> getFullYear h now \<longrightarrow>
             ns = map name (filter (\<lambda>p. start_year p \<le> getFullYear h now
                    \<and> y < end_year p) US_PRESIDENTS)"
  proof
    assume n: "2021 \<le> getFullYear h now"
    have "\<forall>p \<in> set US_PRESIDENTS. start_year p \<le> getFullYear h now"
      using n by (simp add: US_PRESIDENTS_def)
    then show "ns = map name (filter (\<lambda>p. start_year p \<le> getFullYear h now
                    \<and> y < end_year p) US_PRESIDENTS)"
      unfolding b by (intro arg_cong[where f = "map name"] filter_cong) auto
  qed
  show ?thesis
    using r a b c d e unfolding y_def by blast
qed

theorem presidents_filter_exact_witness:
  "field (calculateLifeStats utc_host 1793577600000 ''2000-01-01'') ''presidentsInLifetime'' =
      Some (Names [''Bill Clinton'', ''George W. Bush'', ''Barack Obama'', ''Donald Trump'',
        ''Joe Biden''])
   \<and> (2021 :: int) \<le> getFullYear utc_host 1793577600000
   \<and> [''Bill Clinton'', ''George W. Bush'', ''Barack Obama'', ''Donald Trump'', ''Joe Biden'']
      = map name (filter (\<lambda>p. start_year p \<le> 2026 \<and> 2000 < end_year p) US_PRESIDENTS)
   \<and> US_PRESIDENTS ! 3 \<in> set US_PRESIDENTS
   \<and> name (US_PRESIDENTS ! 3) \<in> set [''Bill Clinton'', ''George W. Bush'', ''Barack Obama'',
        ''Donald Trump'', ''Joe Biden'']"
proof -
  have p: "(946684800000 :: int) \<le> 1793577600000" by simp
  have e: "''2000-01-01'' \<noteq> []" by simp
  have r: "field (calculateLifeStats utc_host 1793577600000 ''2000-01-01'')
      ''presidentsInLifetime'' = Some (Names [''Bill Clinton'', ''George W. Bush'',
        ''Barack Obama'', ''Donald Trump'', ''Joe Biden''])"
    unfolding calculateLifeStats_past[OF e parse_2000 p] field_def year_of_2000
    by (simp add: US_PRESIDENTS_def presidentFilter_def)
  have m: "US_PRESIDENTS ! 3 \<in> set US_PRESIDENTS"
    by (simp add: US_PRESIDENTS_def)
  have k: "start_year (US_PRESIDENTS ! 3) < 2000 \<and> end_year (US_PRESIDENTS ! 3) > 2000"
    by (simp add: US_PRESIDENTS_def)
  note t = presidents_filter_exact[OF e parse_2000 p, unfolded year_of_2000 year_of_2026 r]
  from t obtain ns where n: "Some (Names [''Bill Clinton'', ''George W. Bush'',
        ''Barack Obama'', ''Donald Trump'', ''Joe Biden'']) = Some (Names ns)"
    and x: "2021 \<le> (2026 :: int) \<longrightarrow>
        ns = map name (filter (\<lambda>p. start_year p \<le> 2026 \<and> 2000 < end_year p) US_PRESIDENTS)"
    and y: "\<forall>p \<in> set US_PRESIDENTS. name p \<in> set ns \<longleftrightarrow>
        start_year p \<ge> 2000 \<or> (start_year p < 2000 \<and> end_year p > 2000)"
    by (elim exE conjE) (rule that, assumption+)
  from n have ns: "ns = [''Bill Clinton'', ''George W. Bush'', ''Barack Obama'',
      ''Donald Trump'', ''Joe Biden'']"
    by simp
  from x have "[''Bill Clinton'', ''George W. Bush'', ''Barack Obama'', ''Donald Trump'',
      ''Joe Biden'']
      = map name (filter (\<lambda>p. start_year p \<le> 2026 \<and> 2000 < end_year p) US_PRESIDENTS)"
    unfolding ns by simp
  moreover from y m k have "name (US_PRESIDENTS ! 3) \<in> set [''Bill Clinton'',
      ''George W. Bush'', ''Barack Obama'', ''Donald Trump'', ''Joe Biden'']"
    unfolding ns by (elim ballE[where x = "US_PRESIDENTS ! 3"]) simp_all
  ultimately show ?thesis
    using r m by (simp add: year_of_2026)
qed

lemma presidentFilter_later:
  assumes "i \<le> j" and "j < length US_PRESIDENTS"
    and "presidentFilter birthYear (US_PRESIDENTS ! i)"
  shows "presidentFilter birthYear (US_PRESIDENTS ! j)"
proof -
  have i: "i < length US_PRESIDENTS"
    using assms(1,2) by simp
  have "map end_year US_PRESIDENTS ! i \<le> map end_year US_PRESIDENTS ! j"
    using assms(1,2) by (intro sorted_nth_mono[OF end_year_sorted]) simp_all
  then have "end_year (US_PRESIDENTS ! i) \<le> end_year (US_PRESIDENTS ! j)"
    using i assms(2) by simp
  moreover have "US_PRESIDENTS ! i \<in> set US_PRESIDENTS" "US_PRESIDENTS ! j \<in> set US_PRESIDENTS"
    using i assms(2) by simp_all
  ultimately show ?thesis
    using assms(3) by (simp add: presidentFilter_table)
qed

text \<open>
  Claim C10. The list of presidents is a suffix of the names of the table, and an entry
  that passes the filter is followed in the table only by entries that pass it.
\<close>

theorem presidents_suffix:
  assumes "birthDateStr \<noteq> []" and "Date_parse h birthDateStr = Some birthDate"
    and "birthDate \<le> now"
  shows "(\<exists>ns. field (calculateLifeStats h now birthDateStr) ''presidentsInLifetime'' =
              Some (Names ns)
            \<and> suffix ns (map name US_PRESIDENTS))
       \<and> (\<forall>i j. i \<le> j \<and> j < length US_PRESIDENTS
              \<and> presidentFilter (getFullYear h birthDate) (US_PRESIDENTS ! i)
            \<longrightarrow> presidentFilter (getFullYear h birthDate) (US_PRESIDENTS ! j))"
proof -
  define kept where
    "kept = dropWhile (\<lambda>p. \<not> getFullYear h birthDate < end_year p) US_PRESIDENTS"
  have "field (calculateLifeStats h now birthDateStr) ''presidentsInLifetime'' =
      Some (Names (map name kept))"
    using assms by (simp add: calculateLifeStats_past field_def filter_presidents_dropWhile kept_def)
  moreover have "suffix kept US_PRESIDENTS"
    unfolding kept_def by (rule suffix_dropWhile)
  then have "suffix (map name kept) (map name US_PRESIDENTS)"
    by (rule map_mono_suffix)
  ultimately show ?thesis
    using presidentFilter_later by blast
qed

theorem presidents_suffix_witness:
  "field (calculateLifeStats utc_host 1793577600000 ''2000-01-01'') ''presidentsInLifetime'' =
      Some (Names [''Bill Clinton'', ''George W. Bush'', ''Barack Obama'', ''Donald Trump'',
        ''Joe Biden''])
   \<and> suffix [''Bill Clinton'', ''George W. Bush'', ''Barack Obama'', ''Donald Trump'',
        ''Joe Biden''] (map name US_PRESIDENTS)
   \<and> presidentFilter 2000 (US_PRESIDENTS ! 3) \<and> presidentFilter 2000 (US_PRESIDENTS ! 5)"
proof -
  have p: "(946684800000 :: int) \<le> 1793577600000" by simp
  have e: "''2000-01-01'' \<noteq> []" by simp
  have r: "field (calculateLifeStats utc_host 1793577600000 ''2000-01-01'')
      ''presidentsInLifetime'' = Some (Names [''Bill Clinton'', ''George W. Bush'',
        ''Barack Obama'', ''Donald Trump'', ''Joe Biden''])"
    unfolding calculateLifeStats_past[OF e parse_2000 p] field_def year_of_2000
    by (simp add: US_PRESIDENTS_def presidentFilter_def)
  have c: "presidentFilter 2000 (US_PRESIDENTS ! 3)"
    by (simp add: US_PRESIDENTS_def presidentFilter_def)
  have l: "(3 :: nat) \<le> 5 \<and> 5 < length US_PRESIDENTS"
    by (simp add: US_PRESIDENTS_def)
  note t = presidents_suffix[OF e parse_2000 p, unfolded year_of_2000 r]
  from t have "suffix [''Bill Clinton'', ''George W. Bush'', ''Barack Obama'', ''Donald Trump'',
        ''Joe Biden''] (map name US_PRESIDENTS)"
    by simp
  moreover from t c l have "presidentFilter 2000 (US_PRESIDENTS ! 5)"
    by blast
  ultimately show ?thesis using r c by simp
qed

section \<open>The grid of weeks\<close>

lemma TOTAL_WEEKS_value: "TOTAL_WEEKS = 4680"
  by (simp add: TOTAL_WEEKS_def TOTAL_YEARS_def WEEKS_IN_YEAR_def)

lemma LifeGrid_nth:
  "i < 4680 \<Longrightarrow> LifeGrid weeksLived rendered ! i = grid_unit_at weeksLived rendered i"
  by (simp add: LifeGrid_def TOTAL_WEEKS_value)

lemma decade_marker_index:
  "((i div 52 + 1) mod 10 = 0 \<and> i mod 52 = 52 - 1) \<longleftrightarrow> i mod 520 = 519" for i :: nat
proof -
  define q r where "q = i div 52" and "r = i mod 52"
  have i: "i = 52 * q + r" and r: "r < 52" by (simp_all add: q_def r_def)
  define a b where "a = q div 10" and "b = q mod 10"
  have q: "q = 10 * a + b" and b: "b < 10" by (simp_all add: a_def b_def)
  have e: "i = 520 * a + (52 * b + r)" using i q by simp
  have lt: "52 * b + r < 520" using b r by simp
  have m: "i mod 520 = 52 * b + r"
    unfolding e using lt by simp
  have "(q + 1) mod 10 = 0 \<longleftrightarrow> b = 9"
  proof -
    have "(q + 1) mod 10 = (b + 1) mod 10" unfolding q by (simp add: mod_simps)
    also have "\<dots> = (if b = 9 then 0 else b + 1)" using b by simp
    finally show ?thesis by simp
  qed
  moreover have "52 * b + r = 519 \<longleftrightarrow> b = 9 \<and> r = 51" using b r by arith
  ultimately show ?thesis
    unfolding m q_def[symmetric] r_def[symmetric] by auto
qed


lemma decade_marker_indices:
  "i < 4680 \<Longrightarrow> i mod 520 = 519 \<longleftrightarrow> i \<in> {519, 1039, 1559, 2079, 2599, 3119, 3639, 4159, 4679}"
  for i :: nat
proof -
  assume i: "i < 4680"
  define a r where "a = i div 520" and "r = i mod 520"
  have e: "i = 520 * a + r" and r: "r < 520" by (simp_all add: a_def r_def)
  have a: "a < 9" using i e by simp
  then have "a \<in> {0, 1, 2, 3, 4, 5, 6, 7, 8}" by auto
  then show ?thesis
    unfolding r_def[symmetric] using e r by auto
qed

lemma filter_less_upt:
  "filter (\<lambda>i. int i < w) [0..<n] = [0..<min n (nat w)]"
proof (induction n)
  case 0
  show ?case by simp
next
  case (Suc n)
  show ?case
  proof (cases "int n < w")
    case True
    then have "min (Suc n) (nat w) = Suc n" "min n (nat w) = n" by simp_all
    with Suc True show ?thesis by simp
  next
    case False
    then have "min (Suc n) (nat w) = nat w" "min n (nat w) = nat w" by simp_all
    with Suc False show ?thesis by simp
  qed
qed

lemma LifeGrid_lived_count:
  "length (filter isLived (LifeGrid weeksLived rendered)) = min 4680 (nat weeksLived)"
proof -
  have "isLived \<circ> grid_unit_at weeksLived rendered = (\<lambda>i. int i < weeksLived)"
    by (rule ext) (simp add: grid_unit_at_def)
  then show ?thesis
    by (simp add: LifeGrid_def TOTAL_WEEKS_value filter_map filter_less_upt)
qed

text \<open>
  Claim C7. For every value of \<^verbatim>\<open>weeksLived\<close>, also one beyond the capacity of the grid,
  the grid has exactly 4680 units; unit \<open>i\<close> is lived exactly when \<open>i < weeksLived\<close>
  (so the number of lived units is \<open>weeksLived\<close> cut to the range from 0 to 4680); and
  unit \<open>i\<close> is a decade marker exactly when it is the last week of a year \<open>y\<close> with
  \<open>(y + 1) mod 10 = 0\<close>, that is at the indices 519, 1039, 1559 and so on up to 4679.
\<close>

theorem LifeGrid_units:
  "length (LifeGrid weeksLived rendered) = 4680
   \<and> length (filter isLived (LifeGrid weeksLived rendered)) = min 4680 (nat weeksLived)
   \<and> (\<forall>i < 4680.
         (isLived (LifeGrid weeksLived rendered ! i) \<longleftrightarrow> int i < weeksLived)
       \<and> (isDecadeMarker (LifeGrid weeksLived rendered ! i) \<longleftrightarrow>
            (i div 52 + 1) mod 10 = 0 \<and> i mod 52 = 51)
       \<and> (isDecadeMarker (LifeGrid weeksLived rendered ! i) \<longleftrightarrow>
            i \<in> {519, 1039, 1559, 2079, 2599, 3119, 3639, 4159, 4679}))"
proof (intro conjI allI impI)
  show "length (LifeGrid weeksLived rendered) = 4680"
    by (simp add: LifeGrid_def TOTAL_WEEKS_value)
  show "length (filter isLived (LifeGrid weeksLived rendered)) = min 4680 (nat weeksLived)"
    by (rule LifeGrid_lived_count)
next
  fix i :: nat assume i: "i < 4680"
  show "isLived (LifeGrid weeksLived rendered ! i) \<longleftrightarrow> int i < weeksLived"
    using i by (simp add: LifeGrid_nth grid_unit_at_def)
  have m: "isDecadeMarker (LifeGrid weeksLived rendered ! i) \<longleftrightarrow>
      (i div 52 + 1) mod 10 = 0 \<and> i mod 52 = 52 - 1"
    using i by (simp add: LifeGrid_nth grid_unit_at_def WEEKS_IN_YEAR_def)
  then show "isDecadeMarker (LifeGrid weeksLived rendered ! i) \<longleftrightarrow>
      (i div 52 + 1) mod 10 = 0 \<and> i mod 52 = 51"
    by simp
  show "isDecadeMarker (LifeGrid weeksLived rendered ! i) \<longleftrightarrow>
      i \<in> {519, 1039, 1559, 2079, 2599, 3119, 3639, 4159, 4679}"
    unfolding m decade_marker_index using decade_marker_indices[OF i] .
qed

theorem LifeGrid_units_witness:
  "isLived (LifeGrid 130 True ! 129) \<and> \<not> isLived (LifeGrid 130 True ! 130)
   \<and> isDecadeMarker (LifeGrid 130 True ! 519) \<and> \<not> isDecadeMarker (LifeGrid 130 True ! 520)
   \<and> length (filter isLived (LifeGrid 130 True)) = 130
   \<and> isLived (LifeGrid 5000 True ! 4679) \<and> length (LifeGrid 5000 True) = 4680"
proof -
  note t = LifeGrid_units[of 130 True]
  note u = LifeGrid_units[of 5000 True]
  from t have a: "\<forall>i < 4680. (isLived (LifeGrid 130 True ! i) \<longleftrightarrow> int i < 130)
      \<and> (isDecadeMarker (LifeGrid 130 True ! i) \<longleftrightarrow>
            i \<in> {519, 1039, 1559, 2079, 2599, 3119, 3639, 4159, 4679})"
    by blast
  from u have b: "\<forall>i < 4680. isLived (LifeGrid 5000 True ! i) \<longleftrightarrow> int i < 5000"
    by blast
  have "isLived (LifeGrid 130 True ! 129)" using a[rule_format, of 129] by simp
  moreover have "\<not> isLived (LifeGrid 130 True ! 130)" using a[rule_format, of 130] by simp
  moreover have "isDecadeMarker (LifeGrid 130 True ! 519)" using a[rule_format, of 519] by simp
  moreover have "\<not> isDecadeMarker (LifeGrid 130 True ! 520)"
    using a[rule_format, of 520] by simp
  moreover have "length (filter isLived (LifeGrid 130 True)) = 130" using t by simp
  moreover have "isLived (LifeGrid 5000 True ! 4679)" using b[rule_format, of 4679] by simp
  moreover have "length (LifeGrid 5000 True) = 4680" using u by blast
  ultimately show ?thesis by blast
qed

section \<open>The counter animation\<close>

text \<open>The value set at a frame with timestamp \<open>t\<close>.\<close>

lemma frame_value_le:
  assumes "0 \<le> T"
  shows "\<lfloor>min ((t - st) / 1500) 1 * real_of_int T\<rfloor> \<le> T"
proof -
  have "min ((t - st) / 1500) 1 * real_of_int T \<le> 1 * real_of_int T"
    using assms by (intro mult_right_mono) simp_all
  then have "\<lfloor>min ((t - st) / 1500) 1 * real_of_int T\<rfloor> \<le> \<lfloor>real_of_int T\<rfloor>"
    by (intro floor_mono) simp
  then show ?thesis by simp
qed

lemma frame_value_mono:
  assumes "0 \<le> T" and "t \<le> t'"
  shows "\<lfloor>min ((t - st) / 1500) 1 * real_of_int T\<rfloor>
       \<le> \<lfloor>min ((t' - st) / 1500) 1 * real_of_int T\<rfloor>"
proof -
  have "(t - st) / 1500 \<le> (t' - st) / 1500"
    using assms(2) by (intro divide_right_mono) simp_all
  then have "min ((t - st) / 1500) 1 \<le> min ((t' - st) / 1500) 1"
    by (intro min.mono) simp_all
  then have "min ((t - st) / 1500) 1 * real_of_int T \<le> min ((t' - st) / 1500) 1 * real_of_int T"
    using assms(1) by (intro mult_right_mono) simp_all
  then show ?thesis by (rule floor_mono)
qed

lemma animate_split:
  "animate 0 T st frames =
     map (\<lambda>t. \<lfloor>min ((t - st) / 1500) 1 * real_of_int T\<rfloor>) (takeWhile (\<lambda>t. t < st + 1500) frames)
     @ (if \<forall>t \<in> set frames. t < st + 1500 then [] else [T, T])"
proof (induction frames)
  case Nil
  show ?case by simp
next
  case (Cons t later)
  show ?case
  proof (cases "t < st + 1500")
    case True
    then have "(t - st) / 1500 < 1" by simp
    then have "min ((t - st) / 1500) 1 < 1" by simp
    with True Cons show ?thesis by (simp add: Let_def)
  next
    case False
    then have "1 \<le> (t - st) / 1500" by simp
    then have "min ((t - st) / 1500) 1 = 1" by simp
    with False show ?thesis by (simp add: Let_def)
  qed
qed

lemma animate_sorted:
  assumes "0 \<le> T" and "sorted frames"
  shows "sorted (animate 0 T st frames)"
proof -
  have "sorted (takeWhile (\<lambda>t. t < st + 1500) frames)"
    using assms(2) by (rule sorted_takeWhile)
  then have "sorted (map (\<lambda>t. \<lfloor>min ((t - st) / 1500) 1 * real_of_int T\<rfloor>)
      (takeWhile (\<lambda>t. t < st + 1500) frames))"
    using assms(1) by (simp add: sorted_wrt_map sorted_wrt_mono_rel[of _ "(\<le>)"] frame_value_mono)
  then show ?thesis
    unfolding animate_split using assms(1) by (simp add: sorted_append frame_value_le)
qed

lemma animate_all_le:
  assumes "0 \<le> T"
  shows "\<forall>x \<in> set (animate 0 T st frames). x \<le> T"
  unfolding animate_split using assms by (auto simp: frame_value_le)

lemma animate_completes:
  assumes "\<exists>t \<in> set frames. st + 1500 \<le> t"
  shows "animate 0 T st frames \<noteq> [] \<and> last (animate 0 T st frames) = T"
proof -
  from assms obtain t where "t \<in> set frames" and "\<not> t < st + 1500"
    by (auto simp: not_less)
  then have "\<not> (\<forall>t \<in> set frames. t < st + 1500)"
    by blast
  then have "animate 0 T st frames =
      map (\<lambda>t. \<lfloor>min ((t - st) / 1500) 1 * real_of_int T\<rfloor>)
        (takeWhile (\<lambda>t. t < st + 1500) frames) @ [T, T]"
    by (simp only: animate_split if_False)
  then show ?thesis
    by simp
qed

lemma animate_nonneg:
  assumes "0 \<le> T" and "\<forall>t \<in> set frames. st \<le> t"
  shows "\<forall>x \<in> set (animate 0 T st frames). 0 \<le> x"
proof -
  have "0 \<le> \<lfloor>min ((t - st) / 1500) 1 * real_of_int T\<rfloor>" if "st \<le> t" for t
    using that assms(1) by simp
  moreover have "set (takeWhile (\<lambda>t. t < st + 1500) frames) \<subseteq> set frames"
    by (auto dest: set_takeWhileD)
  ultimately show ?thesis
    unfolding animate_split using assms by auto
qed

text \<open>
  Claim C6. For a target \<open>T > 0\<close>, with the frame timestamps in non-decreasing order and
  a frame delivered at or after the end of the duration of 1500 ms, the values set by
  the animation are non-decreasing, the first is at most \<open>T\<close> and the last is exactly
  \<open>T\<close>. The displayed values, which start with the initial state \<open>0\<close>, are
  non-decreasing as well when no frame precedes the start of the animation. For the
  target \<open>0\<close> nothing is set and no frame is requested: the display stays at its
  initial \<open>0\<close>.
\<close>

theorem counter_animation:
  assumes "0 < T" and "sorted frames" and "\<exists>t \<in> set frames. startTime + 1500 \<le> t"
  shows "onIntersecting T startTime frames \<noteq> []
       \<and> sorted (onIntersecting T startTime frames)
       \<and> hd (onIntersecting T startTime frames) \<le> T
       \<and> last (onIntersecting T startTime frames) = T
       \<and> AnimatedNumber True T (Some (startTime, frames)) =
           Inr (0 # onIntersecting T startTime frames)
       \<and> ((\<forall>t \<in> set frames. startTime \<le> t) \<longrightarrow> sorted (0 # onIntersecting T startTime frames))
       \<and> onIntersecting 0 startTime frames = []
       \<and> AnimatedNumber True 0 (Some (startTime, frames)) = Inr [0]"
proof -
  have o: "onIntersecting T startTime frames = animate 0 T startTime frames"
    using assms(1) by (simp add: onIntersecting_def)
  have T: "0 \<le> T" using assms(1) by simp
  have n: "animate 0 T startTime frames \<noteq> []" and l: "last (animate 0 T startTime frames) = T"
    using animate_completes[OF assms(3)] by simp_all
  have s: "sorted (animate 0 T startTime frames)"
    using T assms(2) by (rule animate_sorted)
  have h: "hd (animate 0 T startTime frames) \<le> T"
    using animate_all_le[OF T, of startTime frames] n by simp
  have z: "(\<forall>t \<in> set frames. startTime \<le> t) \<longrightarrow> sorted (0 # animate 0 T startTime frames)"
    using s animate_nonneg[OF T] by simp
  have a: "AnimatedNumber True T (Some (startTime, frames)) =
      Inr (0 # onIntersecting T startTime frames)"
    by (simp add: AnimatedNumber_def)
  have e: "onIntersecting 0 startTime frames = []"
    by (simp add: onIntersecting_def)
  have f: "AnimatedNumber True 0 (Some (startTime, frames)) = Inr [0]"
    by (simp add: AnimatedNumber_def e)
  show ?thesis
    unfolding o using n s h l z a[unfolded o] e f by blast
qed

theorem counter_animation_witness:
  "onIntersecting 1000 100 [116, 500, 1000, 1600, 1616] = [10, 266, 600, 1000, 1000]
   \<and> sorted [116, 500, 1000, 1600, 1616 :: real]
   \<and> sorted (onIntersecting 1000 100 [116, 500, 1000, 1600, 1616])
   \<and> last (onIntersecting 1000 100 [116, 500, 1000, 1600, 1616]) = 1000
   \<and> sorted (0 # onIntersecting 1000 100 [116, 500, 1000, 1600, 1616])"
proof -
  have a: "(0 :: int) < 1000" by simp
  have b: "sorted [116, 500, 1000, 1600, 1616 :: real]" by simp
  have c: "\<exists>t \<in> set [116, 500, 1000, 1600, 1616 :: real]. 100 + 1500 \<le> t" by simp
  have d: "\<forall>t \<in> set [116, 500, 1000, 1600, 1616 :: real]. 100 \<le> t" by simp
  have e: "onIntersecting 1000 100 [116, 500, 1000, 1600, 1616] = [10, 266, 600, 1000, 1000]"
    by (simp add: onIntersecting_def Let_def)
  note t = counter_animation[OF a b c]
  from t have "sorted (onIntersecting 1000 100 [116, 500, 1000, 1600, 1616])" by blast
  moreover from t have "last (onIntersecting 1000 100 [116, 500, 1000, 1600, 1616]) = 1000"
    by blast
  moreover from t d have "sorted (0 # onIntersecting 1000 100 [116, 500, 1000, 1600, 1616])"
    by blast
  ultimately show ?thesis using b e by blast
qed

section \<open>Reveal without an observer\<close>

lemma StatCard_step_keeps_rendered:
  "isRendered s \<Longrightarrow> isRendered (StatCard_step s e)"
  by (cases e) simp_all

lemma StatCard_run_keeps_rendered:
  "isRendered s \<Longrightarrow> isRendered (foldl StatCard_step s events)"
  by (induction events arbitrary: s) (simp_all add: StatCard_step_keeps_rendered)

lemma StatCard_run_observing_or_rendered:
  "observing s \<or> isRendered s \<Longrightarrow>
   observing (foldl StatCard_step s events) \<or> isRendered (foldl StatCard_step s events)"
proof (induction events arbitrary: s)
  case Nil
  then show ?case by simp
next
  case (Cons e events)
  have "observing (StatCard_step s e) \<or> isRendered (StatCard_step s e)"
    using Cons.prems by (cases e) auto
  then show ?case using Cons.IH by simp
qed

lemma StatCard_run_keeps_due:
  "isRendered s \<or> 0 < pendingTimers s \<Longrightarrow>
   isRendered (foldl StatCard_step s events) \<or> 0 < pendingTimers (foldl StatCard_step s events)"
proof (induction events arbitrary: s)
  case Nil
  then show ?case by simp
next
  case (Cons e events)
  have "isRendered (StatCard_step s e) \<or> 0 < pendingTimers (StatCard_step s e)"
    using Cons.prems by (cases e) auto
  then show ?case using Cons.IH by simp
qed

lemma StatCard_reveals:
  "revealed (StatCard True (earlier @ Observed True # between @ TimerFired # later))"
proof -
  define s0 where "s0 = \<lparr>isRendered = False, observing = True, pendingTimers = 0\<rparr>"
  define s1 where "s1 = foldl StatCard_step s0 earlier"
  define s2 where "s2 = StatCard_step s1 (Observed True)"
  define s3 where "s3 = foldl StatCard_step s2 between"
  define s4 where "s4 = StatCard_step s3 TimerFired"
  have "observing s1 \<or> isRendered s1"
    unfolding s1_def by (rule StatCard_run_observing_or_rendered) (simp add: s0_def)
  then have "isRendered s2 \<or> 0 < pendingTimers s2"
    unfolding s2_def by auto
  then have "isRendered s3 \<or> 0 < pendingTimers s3"
    unfolding s3_def by (rule StatCard_run_keeps_due)
  then have "isRendered s4"
    unfolding s4_def by auto
  then have "isRendered (foldl StatCard_step s4 later)"
    by (rule StatCard_run_keeps_rendered)
  then show ?thesis
    by (simp add: StatCard_def StatCard_effect_def revealed_def s0_def s1_def s2_def s3_def
        s4_def)
qed

text \<open>
  Claim C5, as stated, fails: the components have no fallback for a host without
  \<^verbatim>\<open>IntersectionObserver\<close>. The effect of a card or of a counter raises a
  \<^verbatim>\<open>ReferenceError\<close> there, and the card is not revealed, at once or after any events.
\<close>

theorem reveal_without_observer_counterexample:
  "StatCard False [] = Inl ReferenceError
   \<and> \<not> revealed (StatCard False [])
   \<and> \<not> revealed (StatCard False [Observed True, TimerFired])
   \<and> AnimatedNumber False 1000 (Some (100, [116, 1600])) = Inl ReferenceError"
  by (simp add: StatCard_def StatCard_effect_def revealed_def AnimatedNumber_def)

text \<open>
  Claim C5, amended. Where the host has no \<^verbatim>\<open>IntersectionObserver\<close>, the effect of every
  reveal-gated element (a stat card, an animated counter) raises a \<^verbatim>\<open>ReferenceError\<close>
  when it constructs the observer, whatever events follow: no element is triggered and
  nothing defaults to triggered. Where the host has one, a card is hidden at first and
  is revealed by any run of events in which the timer fires after an intersecting
  observation, and a counter runs its animation from the first intersecting observation.
\<close>

theorem reveal_needs_observer:
  "StatCard False events = Inl ReferenceError
   \<and> \<not> revealed (StatCard False events)
   \<and> AnimatedNumber False value seen = Inl ReferenceError
   \<and> \<not> revealed (StatCard True [])
   \<and> revealed (StatCard True (earlier @ Observed True # between @ TimerFired # later))
   \<and> AnimatedNumber True value (Some (startTime, frames)) =
       Inr (0 # onIntersecting value startTime frames)"
  using StatCard_reveals[of earlier between later]
  by (simp add: StatCard_def StatCard_effect_def revealed_def AnimatedNumber_def)

end
